theory Spec2Isabelle
  imports Complex_Main
begin

section \<open>The detection engine's search_after and bulk-create loop\<close>

text \<open>
  A shallow embedding of \<^verbatim>\<open>searchAfterAndBulkCreate\<close>
  (\<^verbatim>\<open>x-pack/plugins/security_solution/server/lib/detection_engine/signals/search_after_bulk_create.ts\<close>).

  JavaScript numbers that the code treats as quantities which may be fractional
  (\<^verbatim>\<open>tuple.maxSignals\<close>, to which the code applies \<^verbatim>\<open>Math.ceil\<close>, and
  \<^verbatim>\<open>pageSize\<close>) are rationals; counts of documents are natural numbers.
  The three awaited services are parameters: each takes its argument and the state of the
  backend, and gives back either the thrown value (\<open>Inl\<close>, already rendered as the
  template literal \<^verbatim>\<open>`${exc}`\<close> renders it) or its result, with the new backend state.
  The loops may run for ever (a backend can serve pages without end), so the page loop takes
  fuel: the number of iterations a window may still make.
\<close>

subsection \<open>Data\<close>

text \<open>A search hit: \<^verbatim>\<open>_id\<close>, \<^verbatim>\<open>_source['@timestamp']\<close> and the optional \<^verbatim>\<open>sort\<close> array.\<close>

record hit =
  hit_id :: string
  timestamp :: string
  hit_sort :: "string list option"

text \<open>\<^verbatim>\<open>hits.total\<close> is either a number or an object \<^verbatim>\<open>{ value: number }\<close>.\<close>

datatype total = TotalNumber int | TotalObject int

record search_response =
  hits_total :: total
  hits :: "hit list"

text \<open>The arguments of \<^verbatim>\<open>singleSearchAfter\<close> that vary during a run (lines 129 to 139).\<close>

record search_args =
  searchAfterSortId :: "string option"
  search_from :: string
  search_to :: string
  search_pageSize :: rat

text \<open>What \<^verbatim>\<open>singleBulkCreate\<close> resolves to (lines 201 to 206).\<close>

record bulk_response =
  bulkCreateDuration :: "string option"
  createdItemsCount :: nat
  bulkSuccess :: bool
  bulkErrors :: "string list"

text \<open>An element of \<^verbatim>\<open>totalToFromTuples\<close>; the bounds can be null.\<close>

record tuple =
  tuple_from :: "string option"
  tuple_to :: "string option"
  maxSignals :: rat

text \<open>\<^verbatim>\<open>SearchAfterAndBulkCreateReturnType\<close> (lines 48 to 55).\<close>

record toReturn =
  success :: bool
  searchAfterTimes :: "string list"
  bulkCreateTimes :: "string list"
  lastLookBackDate :: "string option"
  createdSignalsCount :: nat
  errors :: "string list"

type_synonym exn = string

text \<open>
  What \<^verbatim>\<open>filterEventsAgainstList\<close> resolves to is a \<^verbatim>\<open>SignalSearchResponse\<close> again
  (line 181). Line 196 assigns to its \<^verbatim>\<open>hits.hits\<close> in place, and line 243 reads
  \<^verbatim>\<open>searchResult.hits.hits\<close>, so it matters whether the two responses have their
  \<^verbatim>\<open>hits\<close> object in common (the filter handed the page back, or a shallow copy of it):
  \<open>SharesHits\<close>. Otherwise the answer has hits of its own: \<open>OwnHits\<close>.
\<close>

datatype filter_answer = SharesHits | OwnHits "hit list"

text \<open>
  Modelled from the spec: \<^verbatim>\<open>singleSearchAfter\<close>, \<^verbatim>\<open>filterEventsAgainstList\<close> and
  \<^verbatim>\<open>singleBulkCreate\<close> are imported from files that are not part of the sources at hand.
  Following sections 4.2 to 4.4 of the specification they are opaque calls that either raise
  or answer. The filter is free of side effects (section 4.3): it does not change the page
  it is given, so an answer that shares the page's hits has the page's hits.
\<close>

record 'b services =
  singleSearchAfter :: "search_args \<Rightarrow> 'b \<Rightarrow> (exn + search_response \<times> string) \<times> 'b"
  filterEventsAgainstList :: "search_response \<Rightarrow> 'b \<Rightarrow> (exn + filter_answer) \<times> 'b"
  singleBulkCreate :: "hit list \<Rightarrow> 'b \<Rightarrow> (exn + bulk_response) \<times> 'b"

text \<open>A record of one call made to a service: which one, and with what.\<close>

datatype call = SearchAfter search_args | FilterEvents search_response | BulkCreate "hit list"

text \<open>
  The mutable variables of the function: \<^verbatim>\<open>toReturn\<close>, \<^verbatim>\<open>sortId\<close> (line 94) and
  \<^verbatim>\<open>signalsCreatedCount\<close> (line 98), with the backend's state. \<open>calls\<close> is the list of
  service calls made so far, oldest first; the code never reads it.
\<close>

record 'b state =
  ret :: toReturn
  sortId :: "string option"
  signalsCreatedCount :: nat
  backend :: 'b
  calls :: "call list"

datatype flow = Continue | Break | Return

datatype status = Finished | Returned | Starved

subsection \<open>JavaScript helpers\<close>

text \<open>
  \<^verbatim>\<open>[...new Set(xs)]\<close>: the elements of \<open>xs\<close> in order of first occurrence.
\<close>

definition set_spread :: "string list \<Rightarrow> string list" where
  "set_spread xs = fold (\<lambda>x acc. if x \<in> set acc then acc else acc @ [x]) xs []"

text \<open>
  \<^verbatim>\<open>xs.slice(0, e)\<close>: \<open>e\<close> is truncated towards zero; a negative end counts from the
  end of the array.
\<close>

definition js_trunc :: "rat \<Rightarrow> int" where
  "js_trunc e = (if e < 0 then \<lceil>e\<rceil> else \<lfloor>e\<rfloor>)"

definition slice0 :: "'a list \<Rightarrow> rat \<Rightarrow> 'a list" where
  "slice0 xs e =
     (let len = int (length xs);
          rel = js_trunc e;
          final = (if rel < 0 then max (len + rel) 0 else min rel len)
      in take (nat final) xs)"

subsection \<open>One iteration of the page loop\<close>

text \<open>The \<^verbatim>\<open>catch\<close> block, lines 250 to 255.\<close>

definition catch :: "exn \<Rightarrow> 'b state \<Rightarrow> flow \<times> 'b state" where
  "catch exc st =
     (Return, st\<lparr>ret := (ret st)\<lparr>success := False,
                                 errors := set_spread (errors (ret st) @ [exc])\<rparr>\<rparr>)"

text \<open>
  Lines 243 to 249: the cursor moves to the first sort value of the page's last hit. On an
  empty page \<^verbatim>\<open>hits[-1]\<close> is undefined and reading its \<^verbatim>\<open>sort\<close> throws inside the
  \<^verbatim>\<open>try\<close> block, with the message of the Node.js versions of the time. Line 161 has
  seen to it that the page came with hits, but line 196 can have emptied it since.
\<close>

definition advance_cursor :: "search_response \<Rightarrow> 'b state \<Rightarrow> flow \<times> 'b state" where
  "advance_cursor searchResult st =
     (if hits searchResult = [] then
        catch ''TypeError: Cannot read property 'sort' of undefined'' st
      else
        (case hit_sort (last (hits searchResult)) of
           None \<Rightarrow> (Break, st)
         | Some [] \<Rightarrow> (Break, st)
         | Some (s # _) \<Rightarrow> (Continue, st\<lparr>sortId := Some s\<rparr>)))"

text \<open>
  Lines 193 to 238: truncate the batch to the window's budget, write it, fold the answer in.
  A throw of the writer goes to the \<^verbatim>\<open>catch\<close> block; otherwise the iteration goes on.
\<close>

definition bulk_create :: "'b services \<Rightarrow> rat \<Rightarrow> hit list \<Rightarrow> 'b state \<Rightarrow> flow \<times> 'b state" where
  "bulk_create svc maxS filteredEvents st =
     (if length filteredEvents \<noteq> 0 then
        (let batch =
               (if of_nat (signalsCreatedCount st + length filteredEvents) > maxS
                then slice0 filteredEvents (maxS - of_nat (signalsCreatedCount st))
                else filteredEvents);
             (r, b) = singleBulkCreate svc batch (backend st);
             st1 = st\<lparr>backend := b, calls := calls st @ [BulkCreate batch]\<rparr>
         in case r of
              Inl exc \<Rightarrow> catch exc st1
            | Inr br \<Rightarrow>
                (Continue,
                 st1\<lparr>signalsCreatedCount := signalsCreatedCount st1 + createdItemsCount br,
                     ret := (ret st1)\<lparr>
                       createdSignalsCount := createdSignalsCount (ret st1) + createdItemsCount br,
                       bulkCreateTimes :=
                         (case bulkCreateDuration br of
                            None \<Rightarrow> bulkCreateTimes (ret st1)
                          | Some d \<Rightarrow> if d = [] then bulkCreateTimes (ret st1)
                                      else bulkCreateTimes (ret st1) @ [d]),
                       success := (success (ret st1) \<and> bulkSuccess br),
                       errors := set_spread (errors (ret st1) @ bulkErrors br)\<rparr>\<rparr>))
      else (Continue, st))"

text \<open>Lines 144 to 147: \<^verbatim>\<open>hits.total\<close> as a number, whichever form it came in.\<close>

definition totalHits :: "search_response \<Rightarrow> int" where
  "totalHits searchResult =
     (case hits_total searchResult of TotalNumber n \<Rightarrow> n | TotalObject n \<Rightarrow> n)"

text \<open>Line 137: the page size asked of the backend.\<close>

definition requested_pageSize :: "rat \<Rightarrow> rat \<Rightarrow> rat" where
  "requested_pageSize maxS pageSize =
     (if maxS < pageSize then of_int \<lceil>maxS\<rceil> else pageSize)"

text \<open>\<^verbatim>\<open>filteredEvents.hits.hits\<close> as the filter hands it over (line 181).\<close>

definition filtered_hits :: "filter_answer \<Rightarrow> search_response \<Rightarrow> hit list" where
  "filtered_hits answer searchResult =
     (case answer of SharesHits \<Rightarrow> hits searchResult | OwnHits filteredEvents \<Rightarrow> filteredEvents)"

text \<open>
  \<^verbatim>\<open>searchResult\<close> as line 243 finds it. The assignment of line 196, made under the
  tests of lines 193 and 195, puts the slice into the \<^verbatim>\<open>hits\<close> object of the filter's
  answer; when that object is the page's, the page holds the slice from then on.
\<close>

definition page_after_write ::
  "rat \<Rightarrow> nat \<Rightarrow> filter_answer \<Rightarrow> search_response \<Rightarrow> search_response" where
  "page_after_write maxS created answer searchResult =
     (case answer of
        OwnHits filteredEvents \<Rightarrow> searchResult
      | SharesHits \<Rightarrow>
          (if length (hits searchResult) \<noteq> 0 \<and>
              of_nat (created + length (hits searchResult)) > maxS
           then searchResult\<lparr>hits := slice0 (hits searchResult) (maxS - of_nat created)\<rparr>
           else searchResult))"

text \<open>Lines 171 to 249, once the page is known to have hits: look-back date, filter, write, cursor.\<close>

definition process_page ::
  "'b services \<Rightarrow> rat \<Rightarrow> search_response \<Rightarrow> 'b state \<Rightarrow> flow \<times> 'b state" where
  "process_page svc maxS searchResult st =
     (let st1 = st\<lparr>ret := (ret st)\<lparr>lastLookBackDate :=
                   (if length (hits searchResult) > 0
                    then Some (timestamp (last (hits searchResult))) else None)\<rparr>\<rparr>;
          (fr, b) = filterEventsAgainstList svc searchResult (backend st1);
          st2 = st1\<lparr>backend := b, calls := calls st1 @ [FilterEvents searchResult]\<rparr>
      in case fr of
           Inl exc \<Rightarrow> catch exc st2
         | Inr answer \<Rightarrow>
             (case bulk_create svc maxS (filtered_hits answer searchResult) st2 of
                (Continue, st3) \<Rightarrow>
                  advance_cursor
                    (page_after_write maxS (signalsCreatedCount st2) answer searchResult) st3
              | other \<Rightarrow> other))"

text \<open>The body of the \<^verbatim>\<open>while\<close> loop of line 120: lines 121 to 255.\<close>

definition page_body ::
  "'b services \<Rightarrow> rat \<Rightarrow> string \<Rightarrow> string \<Rightarrow> rat \<Rightarrow> 'b state \<Rightarrow> flow \<times> 'b state" where
  "page_body svc pageSize frm to maxS st =
     (let args = \<lparr>searchAfterSortId = sortId st, search_from = frm, search_to = to,
                  search_pageSize = requested_pageSize maxS pageSize\<rparr>;
          (r, b) = singleSearchAfter svc args (backend st);
          st1 = st\<lparr>backend := b, calls := calls st @ [SearchAfter args]\<rparr>
      in case r of
           Inl exc \<Rightarrow> catch exc st1
         | Inr (searchResult, searchDuration) \<Rightarrow>
             (let st2 = st1\<lparr>ret := (ret st1)\<lparr>searchAfterTimes :=
                                      searchAfterTimes (ret st1) @ [searchDuration]\<rparr>\<rparr>
              in if totalHits searchResult = 0 \<or> length (hits searchResult) = 0
                 then (Break, st2)
                 else process_page svc maxS searchResult st2))"

subsection \<open>The loops\<close>

text \<open>
  The \<^verbatim>\<open>while (signalsCreatedCount < tuple.maxSignals)\<close> loop of line 120. \<open>Finished\<close>: the
  loop was left by its condition or by \<^verbatim>\<open>break\<close>; \<open>Returned\<close>: the function returned from
  the \<^verbatim>\<open>catch\<close> block; \<open>Starved\<close>: the fuel ran out with the loop still going.
\<close>

fun page_loop ::
  "nat \<Rightarrow> 'b services \<Rightarrow> rat \<Rightarrow> string \<Rightarrow> string \<Rightarrow> rat \<Rightarrow> 'b state \<Rightarrow> status \<times> 'b state" where
  "page_loop 0 svc pageSize frm to maxS st =
     (if of_nat (signalsCreatedCount st) < maxS then (Starved, st) else (Finished, st))"
| "page_loop (Suc n) svc pageSize frm to maxS st =
     (if of_nat (signalsCreatedCount st) < maxS then
        (case page_body svc pageSize frm to maxS st of
           (Continue, st') \<Rightarrow> page_loop n svc pageSize frm to maxS st'
         | (Break, st') \<Rightarrow> (Finished, st')
         | (Return, st') \<Rightarrow> (Returned, st'))
      else (Finished, st))"

text \<open>Lines 113 to 118: what is done with a tuple that is null or lacks a bound.\<close>

definition malformed :: "'b state \<Rightarrow> 'b state" where
  "malformed st =
     st\<lparr>ret := (ret st)\<lparr>success := False,
                          errors := set_spread (errors (ret st) @ [''malformed date tuple''])\<rparr>\<rparr>"

text \<open>
  The \<^verbatim>\<open>while (totalToFromTuples.length > 0)\<close> loop of line 111, on the tuples in the order
  in which \<^verbatim>\<open>pop\<close> hands them out: the head of the list is the last element of the array.
  Every window may make \<open>n\<close> iterations of its page loop.
\<close>

fun window_loop ::
  "nat \<Rightarrow> 'b services \<Rightarrow> rat \<Rightarrow> tuple option list \<Rightarrow> 'b state \<Rightarrow> status \<times> 'b state" where
  "window_loop n svc pageSize [] st = (Finished, st)"
| "window_loop n svc pageSize (tuple # rest) st =
     (case tuple of
        None \<Rightarrow> (Returned, malformed st)
      | Some t \<Rightarrow>
          (case (tuple_to t, tuple_from t) of
             (Some to, Some frm) \<Rightarrow>
               (case page_loop n svc pageSize frm to (maxSignals t)
                       (st\<lparr>signalsCreatedCount := 0\<rparr>) of
                  (Finished, st') \<Rightarrow> window_loop n svc pageSize rest st'
                | other \<Rightarrow> other)
           | _ \<Rightarrow> (Returned, malformed st)))"

text \<open>Lines 84 to 98: the variables as the function sets them up.\<close>

definition initial :: "'b \<Rightarrow> 'b state" where
  "initial b =
     \<lparr>ret = \<lparr>success = True, searchAfterTimes = [], bulkCreateTimes = [],
             lastLookBackDate = None, createdSignalsCount = 0, errors = []\<rparr>,
      sortId = None, signalsCreatedCount = 0, backend = b, calls = []\<rparr>"

text \<open>
  The function. \<open>totalToFromTuples\<close> is what \<^verbatim>\<open>getSignalTimeTuples\<close> returned (its source is
  not at hand, so the array is a parameter); \<open>n\<close> is the fuel and \<open>b\<close> the backend at the start.
  When the status is \<open>Finished\<close> or \<open>Returned\<close>, \<open>ret\<close> of the state is the value returned.
\<close>

definition searchAfterAndBulkCreate ::
  "nat \<Rightarrow> 'b services \<Rightarrow> rat \<Rightarrow> tuple option list \<Rightarrow> 'b \<Rightarrow> status \<times> 'b state" where
  "searchAfterAndBulkCreate n svc pageSize totalToFromTuples b =
     window_loop n svc pageSize (rev totalToFromTuples) (initial b)"

subsection \<open>Notions the properties are stated with\<close>

text \<open>
  A truthful writer never reports more created items than the batch it was offered.
\<close>

definition truthful :: "'b services \<Rightarrow> bool" where
  "truthful svc =
     (\<forall>batch b br b'. singleBulkCreate svc batch b = (Inr br, b') \<longrightarrow>
        createdItemsCount br \<le> length batch)"

text \<open>The sum of the \<^verbatim>\<open>maxSignals\<close> of all planned windows (a null entry has none).\<close>

definition sum_maxSignals :: "tuple option list \<Rightarrow> rat" where
  "sum_maxSignals tuples =
     (\<Sum>tuple\<leftarrow>tuples. case tuple of None \<Rightarrow> 0 | Some t \<Rightarrow> maxSignals t)"

text \<open>
  Section 4.2 of the specification in its own words: the page size is the minimum of the
  window's remaining budget and the configured page size, rounded up when fractional.
\<close>

definition spec_pageSize :: "rat \<Rightarrow> nat \<Rightarrow> rat \<Rightarrow> rat" where
  "spec_pageSize maxS created pageSize = of_int \<lceil>min (maxS - of_nat created) pageSize\<rceil>"

text \<open>
  Backends to run the function on. The backend's state counts the searches made so far;
  \<open>pages\<close> says what the search with that number answers, \<open>flt\<close> what the filter makes
  of a page and \<open>wr\<close> what the writer makes of a batch.
\<close>

definition backend_of ::
  "(nat \<Rightarrow> exn + search_response \<times> string) \<Rightarrow> (search_response \<Rightarrow> exn + filter_answer) \<Rightarrow>
   (hit list \<Rightarrow> exn + bulk_response) \<Rightarrow> nat services" where
  "backend_of pages flt wr =
     \<lparr>singleSearchAfter = (\<lambda>args b. (pages b, Suc b)),
      filterEventsAgainstList = (\<lambda>searchResult b. (flt searchResult, b)),
      singleBulkCreate = (\<lambda>batch b. (wr batch, b))\<rparr>"

definition keep_all :: "search_response \<Rightarrow> exn + filter_answer" where
  "keep_all searchResult = Inr (OwnHits (hits searchResult))"

definition hand_back :: "search_response \<Rightarrow> exn + filter_answer" where
  "hand_back searchResult = Inr SharesHits"

definition write_all :: "hit list \<Rightarrow> exn + bulk_response" where
  "write_all batch =
     Inr \<lparr>bulkCreateDuration = Some ''7'', createdItemsCount = length batch,
          bulkSuccess = True, bulkErrors = []\<rparr>"

definition hit_a :: hit where
  "hit_a = \<lparr>hit_id = ''a'', timestamp = ''2020-09-01T10:00:00Z'', hit_sort = Some [''100'', ''x'']\<rparr>"

definition hit_b :: hit where
  "hit_b = \<lparr>hit_id = ''b'', timestamp = ''2020-09-01T11:00:00Z'', hit_sort = Some [''200'']\<rparr>"


definition page_of :: "hit list \<Rightarrow> exn + search_response \<times> string" where
  "page_of hs = Inr (\<lparr>hits_total = TotalObject (int (length hs)), hits = hs\<rparr>, ''5'')"

text \<open>A backend that always has a page of two hits, lets all through and writes all.\<close>

definition paging_backend :: "nat services" where
  "paging_backend = backend_of (\<lambda>k. page_of [hit_a, hit_b]) keep_all write_all"

text \<open>
  Backends that misbehave: one that reports a total of 0 beside a hit, one whose search
  throws from the second page on, one whose filter throws, one whose writer throws, and a
  filter that lets nothing through.
\<close>

definition contradictory_backend :: "nat services" where
  "contradictory_backend =
     backend_of (\<lambda>k. Inr (\<lparr>hits_total = TotalNumber 0, hits = [hit_a]\<rparr>, ''5'')) keep_all write_all"

definition failing_search_backend :: "nat services" where
  "failing_search_backend =
     backend_of (\<lambda>k. if k = 0 then page_of [hit_a, hit_b] else Inl ''Error: search failed'')
       keep_all write_all"

definition failing_filter_backend :: "nat services" where
  "failing_filter_backend =
     backend_of (\<lambda>k. page_of [hit_a, hit_b]) (\<lambda>searchResult. Inl ''Error: list failed'')
       write_all"

definition failing_writer_backend :: "nat services" where
  "failing_writer_backend =
     backend_of (\<lambda>k. page_of [hit_a, hit_b]) keep_all (\<lambda>batch. Inl ''Error: bulk failed'')"

definition drop_all :: "search_response \<Rightarrow> exn + filter_answer" where
  "drop_all searchResult = Inr (OwnHits [])"


text \<open>
  Backends whose filter hands the page back, as a filter with nothing to exclude may: one
  with pages of two hits that writes all it is offered, and one with pages of one hit whose
  writer creates nothing and reports a partial failure.
\<close>

definition handing_back_backend :: "nat services" where
  "handing_back_backend = backend_of (\<lambda>k. page_of [hit_a, hit_b]) hand_back write_all"

definition write_none :: "hit list \<Rightarrow> exn + bulk_response" where
  "write_none batch =
     Inr \<lparr>bulkCreateDuration = Some ''7'', createdItemsCount = 0,
          bulkSuccess = False, bulkErrors = [''version conflict'']\<rparr>"


definition window :: "string \<Rightarrow> string \<Rightarrow> rat \<Rightarrow> tuple option" where
  "window frm to m = Some \<lparr>tuple_from = Some frm, tuple_to = Some to, maxSignals = m\<rparr>"

section \<open>Properties\<close>

subsection \<open>The JavaScript helpers\<close>

lemma fold_spread_distinct:
  "distinct acc \<Longrightarrow> distinct (fold (\<lambda>x acc. if x \<in> set acc then acc else acc @ [x]) xs acc)"
  by (induction xs arbitrary: acc) auto

lemma fold_spread_set:
  "set (fold (\<lambda>x acc. if x \<in> set acc then acc else acc @ [x]) xs acc) = set acc \<union> set xs"
  by (induction xs arbitrary: acc) auto

lemma set_spread_distinct: "distinct (set_spread xs)"
  by (simp add: set_spread_def fold_spread_distinct)

lemma set_spread_set: "set (set_spread xs) = set xs"
  by (simp add: set_spread_def fold_spread_set)

lemma slice0_nonneg: "0 \<le> e \<Longrightarrow> slice0 xs e = take (nat \<lfloor>e\<rfloor>) xs"
  by (auto simp: slice0_def js_trunc_def Let_def min_def)

subsection \<open>The budget of a window\<close>

lemma slice0_length:
  assumes "0 \<le> e"
  shows "of_nat (length (slice0 xs e)) \<le> e"
proof -
  have fl: "0 \<le> \<lfloor>e\<rfloor>" using assms by simp
  have "length (take (nat \<lfloor>e\<rfloor>) xs) \<le> nat \<lfloor>e\<rfloor>" by simp
  then have "int (length (take (nat \<lfloor>e\<rfloor>) xs)) \<le> int (nat \<lfloor>e\<rfloor>)"
    by (simp only: of_nat_le_iff)
  with fl have "int (length (take (nat \<lfloor>e\<rfloor>) xs)) \<le> \<lfloor>e\<rfloor>"
    by simp
  then have "of_int (int (length (take (nat \<lfloor>e\<rfloor>) xs))) \<le> (of_int \<lfloor>e\<rfloor> :: rat)"
    by (simp only: of_int_le_iff)
  also have "\<dots> \<le> e" by simp
  finally show ?thesis using assms by (simp add: slice0_nonneg)
qed

lemma batch_within_budget:
  assumes "of_nat c < maxS"
  shows "of_nat (c + length (if of_nat (c + length fe) > maxS
                then slice0 fe (maxS - of_nat c) else fe)) \<le> maxS"
proof (cases "of_nat (c + length fe) > maxS")
  case True
  have "of_nat (length (slice0 fe (maxS - of_nat c))) \<le> maxS - of_nat c"
    using assms by (intro slice0_length) simp
  with True show ?thesis by simp
next
  case False
  then show ?thesis by simp
qed

lemma bulk_create_budget:
  assumes t: "truthful svc"
    and lt: "of_nat (signalsCreatedCount st) < maxS"
  shows "of_nat (signalsCreatedCount (snd (bulk_create svc maxS fe st))) \<le> maxS"
proof (cases "fe = []")
  case True
  then show ?thesis using lt by (simp add: bulk_create_def)
next
  case False
  let ?batch = "if of_nat (signalsCreatedCount st + length fe) > maxS
                then slice0 fe (maxS - of_nat (signalsCreatedCount st)) else fe"
  obtain r b where w: "singleBulkCreate svc ?batch (backend st) = (r, b)"
    by (cases "singleBulkCreate svc ?batch (backend st)")
  show ?thesis
  proof (cases r)
    case (Inl exc)
    with False w lt show ?thesis by (simp add: bulk_create_def catch_def Let_def)
  next
    case (Inr br)
    with w t have "createdItemsCount br \<le> length ?batch"
      unfolding truthful_def by blast
    then have "(of_nat (signalsCreatedCount st + createdItemsCount br) :: rat)
                 \<le> of_nat (signalsCreatedCount st + length ?batch)"
      by (simp only: of_nat_le_iff add_le_cancel_left)
    also have "\<dots> \<le> maxS" using batch_within_budget [OF lt] .
    finally show ?thesis using False w Inr by (simp add: bulk_create_def Let_def)
  qed
qed

lemma bulk_create_delta:
  "createdSignalsCount (ret (snd (bulk_create svc maxS fe st))) + signalsCreatedCount st
     = createdSignalsCount (ret st) + signalsCreatedCount (snd (bulk_create svc maxS fe st))"
  by (auto simp: bulk_create_def catch_def Let_def split: prod.splits sum.splits)

lemma advance_cursor_counts:
  "signalsCreatedCount (snd (advance_cursor sr st)) = signalsCreatedCount st \<and>
   createdSignalsCount (ret (snd (advance_cursor sr st))) = createdSignalsCount (ret st)"
  by (auto simp: advance_cursor_def catch_def split: option.splits list.splits)

lemma process_page_budget:
  assumes t: "truthful svc"
    and lt: "of_nat (signalsCreatedCount st) < maxS"
  shows "of_nat (signalsCreatedCount (snd (process_page svc maxS sr st))) \<le> maxS \<and>
         createdSignalsCount (ret (snd (process_page svc maxS sr st))) + signalsCreatedCount st
           = createdSignalsCount (ret st) + signalsCreatedCount (snd (process_page svc maxS sr st))"
proof -
  obtain fr b where f: "filterEventsAgainstList svc sr (backend st) = (fr, b)"
    by (cases "filterEventsAgainstList svc sr (backend st)")
  show ?thesis
  proof (cases fr)
    case (Inl exc)
    with f lt show ?thesis by (simp add: process_page_def catch_def)
  next
    case (Inr answer)
    let ?fe = "filtered_hits answer sr"
    let ?page = "page_after_write maxS (signalsCreatedCount st) answer sr"
    let ?st2 = "st\<lparr>ret := (ret st)\<lparr>lastLookBackDate :=
                   (if length (hits sr) > 0
                    then Some (timestamp (last (hits sr))) else None)\<rparr>,
                backend := b, calls := calls st @ [FilterEvents sr]\<rparr>"
    have lt2: "of_nat (signalsCreatedCount ?st2) < maxS" using lt by simp
    obtain fl st3 where bc: "bulk_create svc maxS ?fe ?st2 = (fl, st3)"
      by (cases "bulk_create svc maxS ?fe ?st2")
    from bulk_create_budget [OF t lt2, of ?fe] bc
    have b3: "of_nat (signalsCreatedCount st3) \<le> maxS" by simp
    from bulk_create_delta [of svc maxS ?fe ?st2] bc
    have d3: "createdSignalsCount (ret st3) + signalsCreatedCount st
                = createdSignalsCount (ret st) + signalsCreatedCount st3" by simp
    show ?thesis using f Inr bc b3 d3 advance_cursor_counts [of ?page st3]
      by (cases fl) (simp_all add: process_page_def)
  qed
qed

lemma page_body_budget:
  assumes t: "truthful svc"
    and lt: "of_nat (signalsCreatedCount st) < maxS"
  shows "of_nat (signalsCreatedCount (snd (page_body svc pageSize frm to maxS st))) \<le> maxS \<and>
         createdSignalsCount (ret (snd (page_body svc pageSize frm to maxS st))) + signalsCreatedCount st
           = createdSignalsCount (ret st) + signalsCreatedCount (snd (page_body svc pageSize frm to maxS st))"
proof -
  let ?args = "\<lparr>searchAfterSortId = sortId st, search_from = frm, search_to = to,
                  search_pageSize = requested_pageSize maxS pageSize\<rparr>"
  obtain r b where s: "singleSearchAfter svc ?args (backend st) = (r, b)"
    by (cases "singleSearchAfter svc ?args (backend st)")
  show ?thesis
  proof (cases r)
    case (Inl exc)
    with s lt show ?thesis by (simp add: page_body_def catch_def)
  next
    case (Inr p)
    obtain sr d where p: "p = (sr, d)" by (cases p)
    let ?st2 = "st\<lparr>backend := b, calls := calls st @ [SearchAfter ?args],
                   ret := (ret st)\<lparr>searchAfterTimes := searchAfterTimes (ret st) @ [d]\<rparr>\<rparr>"
    have lt2: "of_nat (signalsCreatedCount ?st2) < maxS" using lt by simp
    show ?thesis using s Inr p lt process_page_budget [OF t lt2, of sr]
      by (simp add: page_body_def Let_def)
  qed
qed

lemma page_loop_budget:
  assumes t: "truthful svc"
  shows "of_nat (signalsCreatedCount st) \<le> maxS \<Longrightarrow>
         of_nat (signalsCreatedCount (snd (page_loop n svc pageSize frm to maxS st))) \<le> maxS \<and>
         createdSignalsCount (ret (snd (page_loop n svc pageSize frm to maxS st))) + signalsCreatedCount st
           = createdSignalsCount (ret st) + signalsCreatedCount (snd (page_loop n svc pageSize frm to maxS st))"
proof (induction n arbitrary: st)
  case 0
  then show ?case by simp
next
  case (Suc n)
  show ?case
  proof (cases "of_nat (signalsCreatedCount st) < maxS")
    case False
    with Suc.prems show ?thesis by simp
  next
    case True
    obtain fl st' where pb: "page_body svc pageSize frm to maxS st = (fl, st')"
      by (cases "page_body svc pageSize frm to maxS st")
    from page_body_budget [OF t True, of pageSize frm to] pb
    have b: "of_nat (signalsCreatedCount st') \<le> maxS"
      and d: "createdSignalsCount (ret st') + signalsCreatedCount st
                = createdSignalsCount (ret st) + signalsCreatedCount st'" by simp_all
    show ?thesis
    proof (cases fl)
      case Continue
      from Suc.IH [OF b] d True pb Continue show ?thesis by simp
    next
      case Break
      with True pb b d show ?thesis by simp
    next
      case Return
      with True pb b d show ?thesis by simp
    qed
  qed
qed

lemma sum_maxSignals_nonneg:
  "\<forall>t. Some t \<in> set tuples \<longrightarrow> 0 \<le> maxSignals t \<Longrightarrow> 0 \<le> sum_maxSignals tuples"
  unfolding sum_maxSignals_def
  by (induction tuples) (auto split: option.splits)

lemma sum_maxSignals_Cons:
  "sum_maxSignals (tuple # rest) =
     (case tuple of None \<Rightarrow> 0 | Some t \<Rightarrow> maxSignals t) + sum_maxSignals rest"
  by (simp add: sum_maxSignals_def)

lemma sum_maxSignals_rev: "sum_maxSignals (rev tuples) = sum_maxSignals tuples"
  by (simp add: sum_maxSignals_def rev_map [symmetric])

lemma window_loop_budget:
  assumes t: "truthful svc"
  shows "\<forall>t. Some t \<in> set tuples \<longrightarrow> 0 \<le> maxSignals t \<Longrightarrow>
         of_nat (createdSignalsCount (ret (snd (window_loop n svc pageSize tuples st))))
           \<le> of_nat (createdSignalsCount (ret st)) + sum_maxSignals tuples"
proof (induction tuples arbitrary: st)
  case Nil
  then show ?case by (simp add: sum_maxSignals_def)
next
  case (Cons tuple rest)
  have rest_ok: "\<forall>t. Some t \<in> set rest \<longrightarrow> 0 \<le> maxSignals t"
    using Cons.prems by simp
  have rest_nonneg: "0 \<le> sum_maxSignals rest"
    using rest_ok by (rule sum_maxSignals_nonneg)
  show ?case
  proof (cases tuple)
    case None
    with rest_nonneg show ?thesis by (simp add: malformed_def sum_maxSignals_Cons)
  next
    case (Some t)
    have m: "0 \<le> maxSignals t" using Cons.prems Some by simp
    show ?thesis
    proof (cases "tuple_to t")
      case None
      with Some rest_nonneg m show ?thesis by (simp add: malformed_def sum_maxSignals_Cons)
    next
      case to: (Some to)
      show ?thesis
      proof (cases "tuple_from t")
        case None
        with Some to rest_nonneg m show ?thesis by (simp add: malformed_def sum_maxSignals_Cons)
      next
        case frm: (Some frm)
        let ?st0 = "st\<lparr>signalsCreatedCount := 0\<rparr>"
        have z: "of_nat (signalsCreatedCount ?st0) \<le> maxSignals t" using m by simp
        obtain s st' where pl: "page_loop n svc pageSize frm to (maxSignals t) ?st0 = (s, st')"
          by (cases "page_loop n svc pageSize frm to (maxSignals t) ?st0")
        from page_loop_budget [OF t z, of n pageSize frm to] pl
        have b: "of_nat (signalsCreatedCount st') \<le> maxSignals t"
          and d: "createdSignalsCount (ret st') = createdSignalsCount (ret st) + signalsCreatedCount st'"
          by simp_all
        have "(of_nat (createdSignalsCount (ret st')) :: rat)
                = of_nat (createdSignalsCount (ret st)) + of_nat (signalsCreatedCount st')"
          by (simp only: d of_nat_add)
        with b have w: "(of_nat (createdSignalsCount (ret st')) :: rat)
                \<le> of_nat (createdSignalsCount (ret st)) + maxSignals t" by simp
        show ?thesis
        proof (cases s)
          case Finished
          from Cons.IH [OF rest_ok, of st'] w Some to frm pl Finished
          show ?thesis by (simp add: sum_maxSignals_Cons)
        next
          case Returned
          with w rest_nonneg Some to frm pl show ?thesis by (simp add: sum_maxSignals_Cons)
        next
          case Starved
          with w rest_nonneg Some to frm pl show ?thesis by (simp add: sum_maxSignals_Cons)
        qed
      qed
    qed
  qed
qed

lemma truncated_batch:
  assumes lt: "of_nat c < maxS"
    and over: "of_nat (c + length fe) > maxS"
  shows "slice0 fe (maxS - of_nat c) = take (nat \<lfloor>maxS - of_nat c\<rfloor>) fe"
    and "length (take (nat \<lfloor>maxS - of_nat c\<rfloor>) fe) = nat \<lfloor>maxS - of_nat c\<rfloor>"
    and "maxS \<in> \<int> \<Longrightarrow> of_nat (nat \<lfloor>maxS - of_nat c\<rfloor>) = maxS - of_nat c"
proof -
  have pos: "0 \<le> maxS - of_nat c" using lt by simp
  then show "slice0 fe (maxS - of_nat c) = take (nat \<lfloor>maxS - of_nat c\<rfloor>) fe"
    by (rule slice0_nonneg)
  have "maxS - of_nat c < of_nat (length fe)" using over by simp
  then have "\<lfloor>maxS - of_nat c\<rfloor> < int (length fe)"
    by (simp add: floor_less_iff)
  then show "length (take (nat \<lfloor>maxS - of_nat c\<rfloor>) fe) = nat \<lfloor>maxS - of_nat c\<rfloor>"
    by simp
  show "of_nat (nat \<lfloor>maxS - of_nat c\<rfloor>) = maxS - of_nat c" if "maxS \<in> \<int>"
  proof -
    from that obtain k where k: "maxS = of_int k" by (auto elim: Ints_cases)
    have "maxS - of_nat c = of_int (k - int c)" by (simp add: k)
    moreover have "0 \<le> k - int c" using lt k
      by (metis less_eq_rat_def of_int_of_nat_eq of_int_less_iff diff_ge_0_iff_ge less_imp_le)
    ultimately show ?thesis by simp
  qed
qed

lemmas run_defs = searchAfterAndBulkCreate_def initial_def backend_of_def keep_all_def write_all_def
  drop_all_def hand_back_def write_none_def filtered_hits_def page_after_write_def
  page_of_def window_def page_body_def process_page_def bulk_create_def advance_cursor_def catch_def
  totalHits_def requested_pageSize_def slice0_def js_trunc_def set_spread_def malformed_def Let_def

text \<open>
  C1. With a truthful writer: (1) when the window's count plus the filtered batch would go
  over \<open>maxSignals\<close>, the writer is handed the first \<open>\<lfloor>maxSignals - count\<rfloor>\<close> hits of the
  batch, which is exactly \<open>maxSignals - count\<close> hits when \<open>maxSignals\<close> is a whole number, as
  the data model has it; (2) a window that starts at count 0 never ends above its
  \<open>maxSignals\<close>; (3) the run's \<open>createdSignalsCount\<close> is at most the sum of the windows'
  \<open>maxSignals\<close>. (2) and (3) are about caps that are not negative, and hold for every
  amount of fuel, so at every point of a run.
\<close>

theorem maxSignals_never_exceeded:
  assumes t: "truthful svc"
  shows "(of_nat (signalsCreatedCount st) < maxS \<and> filteredEvents \<noteq> [] \<and>
          of_nat (signalsCreatedCount st + length filteredEvents) > maxS \<longrightarrow>
            calls (snd (bulk_create svc maxS filteredEvents st))
              = calls st @ [BulkCreate (take (nat \<lfloor>maxS - of_nat (signalsCreatedCount st)\<rfloor>)
                                             filteredEvents)] \<and>
            length (take (nat \<lfloor>maxS - of_nat (signalsCreatedCount st)\<rfloor>) filteredEvents)
              = nat \<lfloor>maxS - of_nat (signalsCreatedCount st)\<rfloor> \<and>
            (maxS \<in> \<int> \<longrightarrow>
               of_nat (nat \<lfloor>maxS - of_nat (signalsCreatedCount st)\<rfloor>)
                 = maxS - of_nat (signalsCreatedCount st))) \<and>
         (0 \<le> maxS \<longrightarrow>
            of_nat (signalsCreatedCount
                      (snd (page_loop n svc pageSize frm to maxS (st\<lparr>signalsCreatedCount := 0\<rparr>))))
              \<le> maxS) \<and>
         ((\<forall>t. Some t \<in> set totalToFromTuples \<longrightarrow> 0 \<le> maxSignals t) \<longrightarrow>
            of_nat (createdSignalsCount
                      (ret (snd (searchAfterAndBulkCreate n svc pageSize totalToFromTuples b))))
              \<le> sum_maxSignals totalToFromTuples)"
proof (intro conjI impI)
  assume a: "of_nat (signalsCreatedCount st) < maxS \<and> filteredEvents \<noteq> [] \<and>
          of_nat (signalsCreatedCount st + length filteredEvents) > maxS"
  then have lt: "of_nat (signalsCreatedCount st) < maxS"
    and ne: "filteredEvents \<noteq> []"
    and over: "of_nat (signalsCreatedCount st + length filteredEvents) > maxS" by simp_all
  note tb = truncated_batch [OF lt over]
  show "calls (snd (bulk_create svc maxS filteredEvents st))
          = calls st @ [BulkCreate (take (nat \<lfloor>maxS - of_nat (signalsCreatedCount st)\<rfloor>)
                                         filteredEvents)]"
    using ne over tb(1)
    by (auto simp: bulk_create_def catch_def Let_def split: prod.splits sum.splits)
  show "length (take (nat \<lfloor>maxS - of_nat (signalsCreatedCount st)\<rfloor>) filteredEvents)
          = nat \<lfloor>maxS - of_nat (signalsCreatedCount st)\<rfloor>"
    by (rule tb(2))
  show "of_nat (nat \<lfloor>maxS - of_nat (signalsCreatedCount st)\<rfloor>)
          = maxS - of_nat (signalsCreatedCount st)" if "maxS \<in> \<int>"
    using that by (rule tb(3))
next
  assume "0 \<le> maxS"
  then have "of_nat (signalsCreatedCount (st\<lparr>signalsCreatedCount := 0\<rparr>)) \<le> maxS" by simp
  from page_loop_budget [OF t this]
  show "of_nat (signalsCreatedCount
                  (snd (page_loop n svc pageSize frm to maxS (st\<lparr>signalsCreatedCount := 0\<rparr>))))
          \<le> maxS" by simp
next
  assume "\<forall>t. Some t \<in> set totalToFromTuples \<longrightarrow> 0 \<le> maxSignals t"
  then have "\<forall>t. Some t \<in> set (rev totalToFromTuples) \<longrightarrow> 0 \<le> maxSignals t" by simp
  from window_loop_budget [OF t this, of n pageSize "initial b"]
  show "of_nat (createdSignalsCount
                  (ret (snd (searchAfterAndBulkCreate n svc pageSize totalToFromTuples b))))
          \<le> sum_maxSignals totalToFromTuples"
    by (simp add: searchAfterAndBulkCreate_def sum_maxSignals_rev initial_def)
qed

text \<open>
  The instance: a window of 3 signals over pages of two hits; the second batch is cut to one.
\<close>

theorem maxSignals_never_exceeded_witness:
  "truthful paging_backend \<and>
   calls (snd (bulk_create paging_backend 3 [hit_a, hit_b]
                 ((initial 1)\<lparr>signalsCreatedCount := 2\<rparr>)))
     = [BulkCreate [hit_a]] \<and>
   signalsCreatedCount
     (snd (page_loop 2 paging_backend 2 ''now-6m'' ''now'' 3
             ((initial 1)\<lparr>signalsCreatedCount := 0\<rparr>))) \<le> 3 \<and>
   createdSignalsCount
     (ret (snd (searchAfterAndBulkCreate 2 paging_backend 2 [window ''now-6m'' ''now'' 3] 0)))
     \<le> 3"
proof -
  have t: "truthful paging_backend"
    by (auto simp: truthful_def paging_backend_def backend_of_def write_all_def)
  have h1: "of_nat (signalsCreatedCount ((initial (1::nat))\<lparr>signalsCreatedCount := 2\<rparr>)) < (3::rat) \<and>
            [hit_a, hit_b] \<noteq> [] \<and>
            of_nat (signalsCreatedCount ((initial (1::nat))\<lparr>signalsCreatedCount := 2\<rparr>)
                    + length [hit_a, hit_b]) > (3::rat)"
    by (simp add: initial_def)
  have h2: "(0::rat) \<le> 3" by simp
  have h3: "\<forall>t. Some t \<in> set [window ''now-6m'' ''now'' 3] \<longrightarrow> 0 \<le> maxSignals t"
    by (simp add: window_def)
  have s: "sum_maxSignals [window ''now-6m'' ''now'' 3] = 3"
    by (simp add: sum_maxSignals_def window_def)
  from maxSignals_never_exceeded [OF t, of "(initial 1)\<lparr>signalsCreatedCount := 2\<rparr>" 3
      "[hit_a, hit_b]" 2 2 "''now-6m''" "''now''" "[window ''now-6m'' ''now'' 3]" 0] h1 h2 h3 s t
  show ?thesis
    by (simp add: initial_def)
qed

subsection \<open>The cursor across windows\<close>

text \<open>
  C2. The count of the window is set to 0 at line 119, but \<^verbatim>\<open>sortId\<close> is declared before
  the window loop (line 94) and assigned at line 245 only: nothing sets it back. Two windows
  over a backend that always has a page: the first fetch of the run has no cursor, and the
  first fetch of the second window (the fourth call of the run) is handed the cursor
  \<^verbatim>\<open>200\<close> that the first window ended on.
\<close>

theorem cursor_carried_into_next_window:
  "calls (snd (searchAfterAndBulkCreate 3 paging_backend 2
                 [window ''now-12m'' ''now-6m'' 2, window ''now-6m'' ''now'' 2] 0)) ! 0
     = SearchAfter \<lparr>searchAfterSortId = None, search_from = ''now-6m'', search_to = ''now'',
                    search_pageSize = 2\<rparr> \<and>
   calls (snd (searchAfterAndBulkCreate 3 paging_backend 2
                 [window ''now-12m'' ''now-6m'' 2, window ''now-6m'' ''now'' 2] 0)) ! 3
     = SearchAfter \<lparr>searchAfterSortId = Some ''200'', search_from = ''now-12m'',
                    search_to = ''now-6m'', search_pageSize = 2\<rparr>"
  by (simp add: run_defs paging_backend_def hit_a_def hit_b_def numeral_3_eq_3)

subsection \<open>The page size asked of the backend\<close>

lemma catch_calls: "calls (snd (catch exc st)) = calls st"
  by (simp add: catch_def)

lemma advance_cursor_calls: "calls (snd (advance_cursor sr st)) = calls st"
  by (auto simp: advance_cursor_def catch_def split: option.splits list.splits)

lemma bulk_create_searches:
  "SearchAfter a \<in> set (calls (snd (bulk_create svc maxS fe st)))
     \<longleftrightarrow> SearchAfter a \<in> set (calls st)"
  by (auto simp: bulk_create_def catch_def Let_def split: prod.splits sum.splits)

lemma process_page_searches:
  "SearchAfter a \<in> set (calls (snd (process_page svc maxS sr st)))
     \<longleftrightarrow> SearchAfter a \<in> set (calls st)"
proof -
  obtain fr b where f: "filterEventsAgainstList svc sr (backend st) = (fr, b)"
    by (cases "filterEventsAgainstList svc sr (backend st)")
  show ?thesis
  proof (cases fr)
    case (Inl exc)
    with f show ?thesis by (simp add: process_page_def catch_calls)
  next
    case (Inr answer)
    let ?fe = "filtered_hits answer sr"
    let ?page = "page_after_write maxS (signalsCreatedCount st) answer sr"
    let ?st2 = "st\<lparr>ret := (ret st)\<lparr>lastLookBackDate :=
                   (if length (hits sr) > 0
                    then Some (timestamp (last (hits sr))) else None)\<rparr>,
                backend := b, calls := calls st @ [FilterEvents sr]\<rparr>"
    obtain fl st3 where bc: "bulk_create svc maxS ?fe ?st2 = (fl, st3)"
      by (cases "bulk_create svc maxS ?fe ?st2")
    from bulk_create_searches [of a svc maxS ?fe ?st2] bc
    have "SearchAfter a \<in> set (calls st3) \<longleftrightarrow> SearchAfter a \<in> set (calls st)" by simp
    then show ?thesis using f Inr bc advance_cursor_calls [of ?page st3]
      by (cases fl) (simp_all add: process_page_def)
  qed
qed

lemma page_body_searches:
  assumes "SearchAfter a \<in> set (calls (snd (page_body svc pageSize frm to maxS st)))"
  shows "SearchAfter a \<in> set (calls st) \<or>
         a = \<lparr>searchAfterSortId = sortId st, search_from = frm, search_to = to,
              search_pageSize = requested_pageSize maxS pageSize\<rparr>"
  using assms
  by (auto simp: page_body_def Let_def catch_calls process_page_searches
           split: prod.splits sum.splits if_splits)

lemma page_loop_searches:
  "SearchAfter a \<in> set (calls (snd (page_loop n svc pageSize frm to maxS st))) \<Longrightarrow>
   SearchAfter a \<in> set (calls st) \<or>
   (search_from a = frm \<and> search_to a = to \<and>
    search_pageSize a = requested_pageSize maxS pageSize)"
proof (induction n arbitrary: st)
  case 0
  then show ?case by (simp split: if_splits)
next
  case (Suc n)
  show ?case
  proof (cases "of_nat (signalsCreatedCount st) < maxS")
    case False
    with Suc.prems show ?thesis by simp
  next
    case True
    obtain fl st' where pb: "page_body svc pageSize frm to maxS st = (fl, st')"
      by (cases "page_body svc pageSize frm to maxS st")
    have step: "SearchAfter a \<in> set (calls st') \<Longrightarrow> ?thesis"
      using page_body_searches [of a svc pageSize frm to maxS st] pb by auto
    show ?thesis
    proof (cases fl)
      case Continue
      with Suc.prems True pb
      have "SearchAfter a \<in> set (calls (snd (page_loop n svc pageSize frm to maxS st')))"
        by simp
      from Suc.IH [OF this] step show ?thesis by blast
    next
      case Break
      with Suc.prems True pb step show ?thesis by simp
    next
      case Return
      with Suc.prems True pb step show ?thesis by simp
    qed
  qed
qed

lemma window_loop_searches:
  "SearchAfter a \<in> set (calls (snd (window_loop n svc pageSize tuples st))) \<Longrightarrow>
   SearchAfter a \<in> set (calls st) \<or>
   (\<exists>t. Some t \<in> set tuples \<and> tuple_from t = Some (search_from a) \<and>
        tuple_to t = Some (search_to a) \<and>
        search_pageSize a = requested_pageSize (maxSignals t) pageSize)"
proof (induction tuples arbitrary: st)
  case Nil
  then show ?case by simp
next
  case (Cons tuple rest)
  show ?case
  proof (cases tuple)
    case None
    with Cons.prems show ?thesis by (simp add: malformed_def)
  next
    case (Some t)
    show ?thesis
    proof (cases "tuple_to t")
      case None
      with Some Cons.prems show ?thesis by (simp add: malformed_def)
    next
      case to: (Some to)
      show ?thesis
      proof (cases "tuple_from t")
        case None
        with Some to Cons.prems show ?thesis by (simp add: malformed_def)
      next
        case frm: (Some frm)
        let ?st0 = "st\<lparr>signalsCreatedCount := 0\<rparr>"
        obtain s st' where pl: "page_loop n svc pageSize frm to (maxSignals t) ?st0 = (s, st')"
          by (cases "page_loop n svc pageSize frm to (maxSignals t) ?st0")
        have here: "SearchAfter a \<in> set (calls st') \<Longrightarrow> ?thesis"
          using page_loop_searches [of a n svc pageSize frm to "maxSignals t" ?st0] pl Some to frm
          by auto
        show ?thesis
        proof (cases s)
          case Finished
          with Cons.prems Some to frm pl
          have "SearchAfter a \<in> set (calls (snd (window_loop n svc pageSize rest st')))"
            by simp
          from Cons.IH [OF this] here show ?thesis by auto
        next
          case Returned
          with Cons.prems Some to frm pl here show ?thesis by simp
        next
          case Starved
          with Cons.prems Some to frm pl here show ?thesis by simp
        qed
      qed
    qed
  qed
qed

text \<open>
  C3, as stated, fails. A window of 3 signals, configured page size 2: after the first page
  2 signals exist, the remaining budget is 1 and the specification's page size is 1, but the
  second fetch asks for 2.
\<close>

theorem pageSize_ignores_created_counterexample:
  "signalsCreatedCount
     (snd (searchAfterAndBulkCreate 1 paging_backend 2 [window ''now-6m'' ''now'' 3] 0)) = 2 \<and>
   calls (snd (searchAfterAndBulkCreate 2 paging_backend 2 [window ''now-6m'' ''now'' 3] 0)) ! 3
     = SearchAfter \<lparr>searchAfterSortId = Some ''200'', search_from = ''now-6m'',
                    search_to = ''now'', search_pageSize = 2\<rparr> \<and>
   spec_pageSize 3 2 2 = 1"
  by (simp add: run_defs paging_backend_def hit_a_def hit_b_def numeral_2_eq_2 spec_pageSize_def)

text \<open>
  C3, amended. Every fetch of a run is made for one of the planned windows, with that
  window's bounds, and its page size is the window's whole \<open>maxSignals\<close>, rounded up,
  when that is below the configured page size, and the configured page size as it is
  otherwise: what the window has created so far plays no part.
\<close>

theorem pageSize_of_every_fetch:
  "\<forall>a. SearchAfter a \<in> set (calls (snd (searchAfterAndBulkCreate n svc pageSize totalToFromTuples b)))
     \<longrightarrow> (\<exists>t. Some t \<in> set totalToFromTuples \<and>
              tuple_from t = Some (search_from a) \<and> tuple_to t = Some (search_to a) \<and>
              search_pageSize a
                = (if maxSignals t < pageSize then of_int \<lceil>maxSignals t\<rceil> else pageSize))"
proof (intro allI impI)
  fix a
  assume "SearchAfter a \<in> set (calls (snd (searchAfterAndBulkCreate n svc pageSize totalToFromTuples b)))"
  then have "SearchAfter a \<in> set (calls (snd (window_loop n svc pageSize (rev totalToFromTuples) (initial b))))"
    by (simp add: searchAfterAndBulkCreate_def)
  from window_loop_searches [OF this]
  show "\<exists>t. Some t \<in> set totalToFromTuples \<and>
              tuple_from t = Some (search_from a) \<and> tuple_to t = Some (search_to a) \<and>
              search_pageSize a
                = (if maxSignals t < pageSize then of_int \<lceil>maxSignals t\<rceil> else pageSize)"
    by (simp add: initial_def requested_pageSize_def)
qed

text \<open>The instance: the second fetch of the run above.\<close>

theorem pageSize_of_every_fetch_witness:
  "SearchAfter \<lparr>searchAfterSortId = Some ''200'', search_from = ''now-6m'',
                search_to = ''now'', search_pageSize = 2\<rparr>
     \<in> set (calls (snd (searchAfterAndBulkCreate 2 paging_backend 2 [window ''now-6m'' ''now'' 3] 0))) \<and>
   (\<exists>t. Some t \<in> set [window ''now-6m'' ''now'' 3] \<and>
        tuple_from t = Some ''now-6m'' \<and> tuple_to t = Some ''now'' \<and>
        (2::rat) = (if maxSignals t < 2 then of_int \<lceil>maxSignals t\<rceil> else 2))"
proof -
  let ?a = "\<lparr>searchAfterSortId = Some ''200'', search_from = ''now-6m'',
             search_to = ''now'', search_pageSize = 2\<rparr>"
  have m: "SearchAfter ?a
     \<in> set (calls (snd (searchAfterAndBulkCreate 2 paging_backend 2 [window ''now-6m'' ''now'' 3] 0)))"
    by (simp add: run_defs paging_backend_def hit_a_def hit_b_def numeral_2_eq_2)
  from pageSize_of_every_fetch [rule_format, OF m] m
  show ?thesis by simp
qed

subsection \<open>Single iterations\<close>

text \<open>
  C4. In any iteration of the page loop, when the search answers and the total it reports,
  read from either form, is 0, or its page is empty, the loop ends there: the only call made
  is the search, the only change to the result is the search duration, and the window loop
  goes on with the remaining windows. Either condition is enough, so a total of 0 beside a
  non-empty page ends the window as well.
\<close>

theorem zero_hits_end_the_window:
  assumes lt: "of_nat (signalsCreatedCount st) < maxS"
    and args: "args = \<lparr>searchAfterSortId = sortId st, search_from = frm, search_to = to,
                        search_pageSize = requested_pageSize maxS pageSize\<rparr>"
    and s: "singleSearchAfter svc args (backend st) = (Inr (searchResult, d), b')"
    and z: "totalHits searchResult = 0 \<or> hits searchResult = []"
  shows "page_loop (Suc n) svc pageSize frm to maxS st
           = (Finished, st\<lparr>backend := b', calls := calls st @ [SearchAfter args],
                            ret := (ret st)\<lparr>searchAfterTimes :=
                                               searchAfterTimes (ret st) @ [d]\<rparr>\<rparr>) \<and>
         totalHits \<lparr>hits_total = TotalNumber k, hits = hs\<rparr> = k \<and>
         totalHits \<lparr>hits_total = TotalObject k, hits = hs\<rparr> = k \<and>
         (page_loop m svc pageSize frm to maxS (st0\<lparr>signalsCreatedCount := 0\<rparr>) = (Finished, st')
            \<longrightarrow> window_loop m svc pageSize
                  (Some \<lparr>tuple_from = Some frm, tuple_to = Some to, maxSignals = maxS\<rparr> # rest) st0
                = window_loop m svc pageSize rest st')"
  using lt s z unfolding args
  by (auto simp: page_body_def Let_def totalHits_def)

text \<open>
  The instance: the backend that reports a total of 0 beside one hit, two windows.
\<close>

theorem zero_hits_end_the_window_witness:
  "page_loop 1 contradictory_backend 2 ''now-6m'' ''now'' 3 (initial 0)
     = (Finished,
        \<lparr>ret = \<lparr>success = True, searchAfterTimes = [''5''], bulkCreateTimes = [],
                lastLookBackDate = None, createdSignalsCount = 0, errors = []\<rparr>,
         sortId = None, signalsCreatedCount = 0, backend = 1,
         calls = [SearchAfter \<lparr>searchAfterSortId = None, search_from = ''now-6m'',
                                search_to = ''now'', search_pageSize = 2\<rparr>]\<rparr>) \<and>
   totalHits \<lparr>hits_total = TotalNumber 0, hits = [hit_a]\<rparr> = 0 \<and>
   totalHits \<lparr>hits_total = TotalObject 0, hits = [hit_a]\<rparr> = 0 \<and>
   window_loop 1 contradictory_backend 2
       [window ''now-6m'' ''now'' 3, window ''now-12m'' ''now-6m'' 3] (initial 0)
     = window_loop 1 contradictory_backend 2 [window ''now-12m'' ''now-6m'' 3]
         \<lparr>ret = \<lparr>success = True, searchAfterTimes = [''5''], bulkCreateTimes = [],
                 lastLookBackDate = None, createdSignalsCount = 0, errors = []\<rparr>,
          sortId = None, signalsCreatedCount = 0, backend = 1,
          calls = [SearchAfter \<lparr>searchAfterSortId = None, search_from = ''now-6m'',
                                 search_to = ''now'', search_pageSize = 2\<rparr>]\<rparr>"
proof -
  let ?args = "\<lparr>searchAfterSortId = sortId (initial (0::nat)), search_from = ''now-6m'',
                search_to = ''now'', search_pageSize = requested_pageSize 3 2\<rparr>"
  let ?sr = "\<lparr>hits_total = TotalNumber 0, hits = [hit_a]\<rparr>"
  have lt: "of_nat (signalsCreatedCount (initial (0::nat))) < (3::rat)"
    by (simp add: initial_def)
  have s: "singleSearchAfter contradictory_backend ?args (backend (initial 0)) = (Inr (?sr, ''5''), 1)"
    by (simp add: contradictory_backend_def backend_of_def initial_def)
  have z: "totalHits ?sr = 0 \<or> hits ?sr = []"
    by (simp add: totalHits_def)
  note inst = zero_hits_end_the_window [OF lt refl s z, of 0 0 "[hit_a]" 1 "initial 0" _
      "[window ''now-12m'' ''now-6m'' 3]"]
  have run: "page_loop 1 contradictory_backend 2 ''now-6m'' ''now'' 3 (initial 0)
     = (Finished,
        \<lparr>ret = \<lparr>success = True, searchAfterTimes = [''5''], bulkCreateTimes = [],
                lastLookBackDate = None, createdSignalsCount = 0, errors = []\<rparr>,
         sortId = None, signalsCreatedCount = 0, backend = 1,
         calls = [SearchAfter \<lparr>searchAfterSortId = None, search_from = ''now-6m'',
                                search_to = ''now'', search_pageSize = 2\<rparr>]\<rparr>)"
    using inst by (simp add: initial_def requested_pageSize_def)
  then have run0: "page_loop 1 contradictory_backend 2 ''now-6m'' ''now'' 3
                     ((initial 0)\<lparr>signalsCreatedCount := 0\<rparr>)
     = (Finished,
        \<lparr>ret = \<lparr>success = True, searchAfterTimes = [''5''], bulkCreateTimes = [],
                lastLookBackDate = None, createdSignalsCount = 0, errors = []\<rparr>,
         sortId = None, signalsCreatedCount = 0, backend = 1,
         calls = [SearchAfter \<lparr>searchAfterSortId = None, search_from = ''now-6m'',
                                search_to = ''now'', search_pageSize = 2\<rparr>]\<rparr>)"
    by (simp add: initial_def)
  from inst run run0 show ?thesis
    by (simp add: window_def del: page_loop.simps window_loop.simps One_nat_def)
qed

text \<open>
  C5. In any iteration of the page loop, when the search, the filter or the writer throws,
  the function returns at once: \<open>success\<close> is false, the thrown value joins the error
  list through a set, and every other field of the result is as it was when the call was
  made (the search duration and look-back date of the page at hand included, once the
  search has answered). The return ends the window loop too, whatever windows remain.
\<close>

theorem thrown_call_aborts_the_run:
  assumes lt: "of_nat (signalsCreatedCount st) < maxS"
    and args: "args = \<lparr>searchAfterSortId = sortId st, search_from = frm, search_to = to,
                        search_pageSize = requested_pageSize maxS pageSize\<rparr>"
    and fe: "fe = filtered_hits answer sr"
    and batch: "batch = (if of_nat (signalsCreatedCount st + length fe) > maxS
                         then slice0 fe (maxS - of_nat (signalsCreatedCount st)) else fe)"
  shows "(singleSearchAfter svc args (backend st) = (Inl exc, b1) \<longrightarrow>
            page_loop (Suc n) svc pageSize frm to maxS st
              = (Returned,
                 st\<lparr>backend := b1, calls := calls st @ [SearchAfter args],
                     ret := (ret st)\<lparr>success := False,
                                      errors := set_spread (errors (ret st) @ [exc])\<rparr>\<rparr>)) \<and>
         (singleSearchAfter svc args (backend st) = (Inr (sr, d), b1) \<and>
          totalHits sr \<noteq> 0 \<and> hits sr \<noteq> [] \<and>
          filterEventsAgainstList svc sr b1 = (Inl exc, b2) \<longrightarrow>
            page_loop (Suc n) svc pageSize frm to maxS st
              = (Returned,
                 st\<lparr>backend := b2, calls := calls st @ [SearchAfter args, FilterEvents sr],
                     ret := (ret st)\<lparr>searchAfterTimes := searchAfterTimes (ret st) @ [d],
                                      lastLookBackDate := Some (timestamp (last (hits sr))),
                                      success := False,
                                      errors := set_spread (errors (ret st) @ [exc])\<rparr>\<rparr>)) \<and>
         (singleSearchAfter svc args (backend st) = (Inr (sr, d), b1) \<and>
          totalHits sr \<noteq> 0 \<and> hits sr \<noteq> [] \<and>
          filterEventsAgainstList svc sr b1 = (Inr answer, b2) \<and> fe \<noteq> [] \<and>
          singleBulkCreate svc batch b2 = (Inl exc, b3) \<longrightarrow>
            page_loop (Suc n) svc pageSize frm to maxS st
              = (Returned,
                 st\<lparr>backend := b3,
                     calls := calls st @ [SearchAfter args, FilterEvents sr, BulkCreate batch],
                     ret := (ret st)\<lparr>searchAfterTimes := searchAfterTimes (ret st) @ [d],
                                      lastLookBackDate := Some (timestamp (last (hits sr))),
                                      success := False,
                                      errors := set_spread (errors (ret st) @ [exc])\<rparr>\<rparr>)) \<and>
         (page_loop m svc pageSize frm to maxS (st0\<lparr>signalsCreatedCount := 0\<rparr>) = (Returned, st')
            \<longrightarrow> window_loop m svc pageSize
                  (Some \<lparr>tuple_from = Some frm, tuple_to = Some to, maxSignals = maxS\<rparr> # rest) st0
                = (Returned, st'))"
proof (intro conjI impI)
  assume "singleSearchAfter svc args (backend st) = (Inl exc, b1)"
  then show "page_loop (Suc n) svc pageSize frm to maxS st
              = (Returned,
                 st\<lparr>backend := b1, calls := calls st @ [SearchAfter args],
                     ret := (ret st)\<lparr>success := False,
                                      errors := set_spread (errors (ret st) @ [exc])\<rparr>\<rparr>)"
    using lt unfolding args by (simp add: page_body_def catch_def)
next
  assume "singleSearchAfter svc args (backend st) = (Inr (sr, d), b1) \<and>
          totalHits sr \<noteq> 0 \<and> hits sr \<noteq> [] \<and>
          filterEventsAgainstList svc sr b1 = (Inl exc, b2)"
  then show "page_loop (Suc n) svc pageSize frm to maxS st
              = (Returned,
                 st\<lparr>backend := b2, calls := calls st @ [SearchAfter args, FilterEvents sr],
                     ret := (ret st)\<lparr>searchAfterTimes := searchAfterTimes (ret st) @ [d],
                                      lastLookBackDate := Some (timestamp (last (hits sr))),
                                      success := False,
                                      errors := set_spread (errors (ret st) @ [exc])\<rparr>\<rparr>)"
    using lt unfolding args by (simp add: page_body_def process_page_def catch_def)
next
  assume a: "singleSearchAfter svc args (backend st) = (Inr (sr, d), b1) \<and>
          totalHits sr \<noteq> 0 \<and> hits sr \<noteq> [] \<and>
          filterEventsAgainstList svc sr b1 = (Inr answer, b2) \<and> fe \<noteq> [] \<and>
          singleBulkCreate svc batch b2 = (Inl exc, b3)"
  then show "page_loop (Suc n) svc pageSize frm to maxS st
              = (Returned,
                 st\<lparr>backend := b3,
                     calls := calls st @ [SearchAfter args, FilterEvents sr, BulkCreate batch],
                     ret := (ret st)\<lparr>searchAfterTimes := searchAfterTimes (ret st) @ [d],
                                      lastLookBackDate := Some (timestamp (last (hits sr))),
                                      success := False,
                                      errors := set_spread (errors (ret st) @ [exc])\<rparr>\<rparr>)"
    using lt unfolding args batch fe
    by (cases "of_nat (signalsCreatedCount st + length (filtered_hits answer sr)) > maxS")
      (simp_all add: page_body_def process_page_def bulk_create_def catch_def)
next
  assume "page_loop m svc pageSize frm to maxS (st0\<lparr>signalsCreatedCount := 0\<rparr>) = (Returned, st')"
  then show "window_loop m svc pageSize
                  (Some \<lparr>tuple_from = Some frm, tuple_to = Some to, maxSignals = maxS\<rparr> # rest) st0
                = (Returned, st')"
    by simp
qed


text \<open>
  The instances: a search that throws on the second page of the first window (the result
  keeps the first page's two signals and durations, with one error), a filter that throws
  and a writer that throws on the first page.
\<close>

theorem thrown_call_aborts_the_run_witness:
  "searchAfterAndBulkCreate 2 failing_search_backend 2 [window ''now-6m'' ''now'' 3] 0
     = (Returned,
        \<lparr>ret = \<lparr>success = False, searchAfterTimes = [''5''], bulkCreateTimes = [''7''],
                lastLookBackDate = Some ''2020-09-01T11:00:00Z'', createdSignalsCount = 2,
                errors = [''Error: search failed'']\<rparr>,
         sortId = Some ''200'', signalsCreatedCount = 2, backend = 2,
         calls = [SearchAfter \<lparr>searchAfterSortId = None, search_from = ''now-6m'',
                                search_to = ''now'', search_pageSize = 2\<rparr>,
                  FilterEvents \<lparr>hits_total = TotalObject 2, hits = [hit_a, hit_b]\<rparr>,
                  BulkCreate [hit_a, hit_b],
                  SearchAfter \<lparr>searchAfterSortId = Some ''200'', search_from = ''now-6m'',
                                search_to = ''now'', search_pageSize = 2\<rparr>]\<rparr>) \<and>
   ret (snd (page_loop 1 failing_filter_backend 2 ''now-6m'' ''now'' 3 (initial 0)))
     = \<lparr>success = False, searchAfterTimes = [''5''], bulkCreateTimes = [],
        lastLookBackDate = Some ''2020-09-01T11:00:00Z'', createdSignalsCount = 0,
        errors = [''Error: list failed'']\<rparr> \<and>
   ret (snd (page_loop 1 failing_writer_backend 2 ''now-6m'' ''now'' 3 (initial 0)))
     = \<lparr>success = False, searchAfterTimes = [''5''], bulkCreateTimes = [],
        lastLookBackDate = Some ''2020-09-01T11:00:00Z'', createdSignalsCount = 0,
        errors = [''Error: bulk failed'']\<rparr>"
proof -
  let ?first = "SearchAfter \<lparr>searchAfterSortId = None, search_from = ''now-6m'',
                             search_to = ''now'', search_pageSize = 2\<rparr>"
  let ?sr = "\<lparr>hits_total = TotalObject 2, hits = [hit_a, hit_b]\<rparr>"
  let ?st1 = "\<lparr>ret = \<lparr>success = True, searchAfterTimes = [''5''], bulkCreateTimes = [''7''],
                lastLookBackDate = Some ''2020-09-01T11:00:00Z'', createdSignalsCount = 2,
                errors = []\<rparr>,
         sortId = Some ''200'', signalsCreatedCount = 2, backend = (1::nat),
         calls = [?first, FilterEvents ?sr, BulkCreate [hit_a, hit_b]]\<rparr>"
  let ?st2 = "\<lparr>ret = \<lparr>success = False, searchAfterTimes = [''5''], bulkCreateTimes = [''7''],
                lastLookBackDate = Some ''2020-09-01T11:00:00Z'', createdSignalsCount = 2,
                errors = [''Error: search failed'']\<rparr>,
         sortId = Some ''200'', signalsCreatedCount = 2, backend = (2::nat),
         calls = [?first, FilterEvents ?sr, BulkCreate [hit_a, hit_b],
                  SearchAfter \<lparr>searchAfterSortId = Some ''200'', search_from = ''now-6m'',
                                search_to = ''now'', search_pageSize = 2\<rparr>]\<rparr>"
  have first_page: "page_body failing_search_backend 2 ''now-6m'' ''now'' 3 (initial 0)
                      = (Continue, ?st1)"
    by (simp add: run_defs failing_search_backend_def hit_a_def hit_b_def)
  have lt1: "of_nat (signalsCreatedCount ?st1) < (3::rat)" by simp
  have throws: "singleSearchAfter failing_search_backend
                  \<lparr>searchAfterSortId = sortId ?st1, search_from = ''now-6m'', search_to = ''now'',
                   search_pageSize = requested_pageSize 3 2\<rparr> (backend ?st1)
                  = (Inl ''Error: search failed'', 2)"
    by (simp add: failing_search_backend_def backend_of_def)
  note a = thrown_call_aborts_the_run [OF lt1 refl refl refl,
      where svc = failing_search_backend and pageSize = 2 and frm = "''now-6m''"
        and to = "''now''" and exc = "''Error: search failed''" and ?b1.0 = 2 and n = 0
        and m = 2 and ?st0.0 = "initial 0" and st' = ?st2 and rest = "[]"]
  from a throws have second_page:
    "page_loop 1 failing_search_backend 2 ''now-6m'' ''now'' 3 ?st1 = (Returned, ?st2)"
    by (simp add: requested_pageSize_def set_spread_def del: page_loop.simps)
  have "page_loop 2 failing_search_backend 2 ''now-6m'' ''now'' 3
          ((initial 0)\<lparr>signalsCreatedCount := 0\<rparr>) = (Returned, ?st2)"
    using first_page second_page
    by (simp add: numeral_2_eq_2 initial_def del: page_loop.simps(2))
       (simp add: initial_def)
  with a have run: "searchAfterAndBulkCreate 2 failing_search_backend 2 [window ''now-6m'' ''now'' 3] 0
                      = (Returned, ?st2)"
    by (simp add: searchAfterAndBulkCreate_def window_def del: page_loop.simps window_loop.simps)
  have lt0: "of_nat (signalsCreatedCount (initial (0::nat))) < (3::rat)"
    by (simp add: initial_def)
  have f_search: "singleSearchAfter failing_filter_backend
                  \<lparr>searchAfterSortId = sortId (initial 0), search_from = ''now-6m'',
                   search_to = ''now'', search_pageSize = requested_pageSize 3 2\<rparr>
                  (backend (initial 0)) = (Inr (?sr, ''5''), 1) \<and>
                totalHits ?sr \<noteq> 0 \<and> hits ?sr \<noteq> [] \<and>
                filterEventsAgainstList failing_filter_backend ?sr 1 = (Inl ''Error: list failed'', 1)"
    by (simp add: failing_filter_backend_def backend_of_def page_of_def totalHits_def initial_def)
  note b = thrown_call_aborts_the_run [OF lt0 refl refl refl,
      where svc = failing_filter_backend and pageSize = 2 and frm = "''now-6m''"
        and to = "''now''" and exc = "''Error: list failed''" and ?b1.0 = 1 and ?b2.0 = 1
        and sr = ?sr and d = "''5''" and n = 0]
  from b f_search have filter_case:
    "ret (snd (page_loop 1 failing_filter_backend 2 ''now-6m'' ''now'' 3 (initial 0)))
     = \<lparr>success = False, searchAfterTimes = [''5''], bulkCreateTimes = [],
        lastLookBackDate = Some ''2020-09-01T11:00:00Z'', createdSignalsCount = 0,
        errors = [''Error: list failed'']\<rparr>"
    by (simp add: initial_def set_spread_def hit_b_def filtered_hits_def del: page_loop.simps)
  have w_search: "singleSearchAfter failing_writer_backend
                  \<lparr>searchAfterSortId = sortId (initial 0), search_from = ''now-6m'',
                   search_to = ''now'', search_pageSize = requested_pageSize 3 2\<rparr>
                  (backend (initial 0)) = (Inr (?sr, ''5''), 1) \<and>
                totalHits ?sr \<noteq> 0 \<and> hits ?sr \<noteq> [] \<and>
                filterEventsAgainstList failing_writer_backend ?sr 1
                  = (Inr (OwnHits [hit_a, hit_b]), 1) \<and>
                [hit_a, hit_b] \<noteq> [] \<and>
                singleBulkCreate failing_writer_backend
                  (if of_nat (signalsCreatedCount (initial (0::nat)) + length [hit_a, hit_b]) > (3::rat)
                   then slice0 [hit_a, hit_b] (3 - of_nat (signalsCreatedCount (initial (0::nat))))
                   else [hit_a, hit_b]) 1 = (Inl ''Error: bulk failed'', 1)"
    by (simp add: failing_writer_backend_def backend_of_def page_of_def totalHits_def initial_def
          keep_all_def)
  note c = thrown_call_aborts_the_run [OF lt0 refl refl refl,
      where svc = failing_writer_backend and pageSize = 2 and frm = "''now-6m''"
        and to = "''now''" and exc = "''Error: bulk failed''" and ?b1.0 = 1 and ?b2.0 = 1
        and ?b3.0 = 1 and sr = ?sr and d = "''5''" and answer = "OwnHits [hit_a, hit_b]" and n = 0]
  from c w_search have writer_case:
    "ret (snd (page_loop 1 failing_writer_backend 2 ''now-6m'' ''now'' 3 (initial 0)))
     = \<lparr>success = False, searchAfterTimes = [''5''], bulkCreateTimes = [],
        lastLookBackDate = Some ''2020-09-01T11:00:00Z'', createdSignalsCount = 0,
        errors = [''Error: bulk failed'']\<rparr>"
    by (simp add: initial_def set_spread_def hit_b_def filtered_hits_def del: page_loop.simps)
  from run filter_case writer_case show ?thesis by (simp only: simp_thms)
qed

text \<open>
  With a whole number for \<open>maxSignals\<close> the page that line 243 reads still has a hit,
  whatever the filter answered: only a fractional budget cuts a batch to nothing.
\<close>

lemma page_after_write_nonempty:
  assumes ne: "hits searchResult \<noteq> []"
    and lt: "of_nat created < maxS"
    and whole: "maxS \<in> \<int>"
  shows "hits (page_after_write maxS created answer searchResult) \<noteq> []"
proof (cases "answer = SharesHits \<and> of_nat (created + length (hits searchResult)) > maxS")
  case False
  with ne show ?thesis
    by (auto simp: page_after_write_def split: filter_answer.splits)
next
  case True
  from True have over: "of_nat (created + length (hits searchResult)) > maxS" by simp
  from truncated_batch [OF lt over] whole
  have len: "length (slice0 (hits searchResult) (maxS - of_nat created))
               = nat \<lfloor>maxS - of_nat created\<rfloor>"
    and ex: "of_nat (nat \<lfloor>maxS - of_nat created\<rfloor>) = maxS - of_nat created"
    by simp_all
  from ex lt have "nat \<lfloor>maxS - of_nat created\<rfloor> \<noteq> 0"
    by (metis diff_gt_0_iff_gt less_irrefl of_nat_0)
  with len have "slice0 (hits searchResult) (maxS - of_nat created) \<noteq> []"
    by auto
  with True ne show ?thesis
    by (simp add: page_after_write_def)
qed



subsection \<open>Malformed windows\<close>

lemma window_loop_append:
  "window_loop n svc pageSize (xs @ ys) st
     = (case window_loop n svc pageSize xs st of
          (Finished, st') \<Rightarrow> window_loop n svc pageSize ys st'
        | other \<Rightarrow> other)"
proof (induction xs arbitrary: st)
  case Nil
  show ?case by simp
next
  case (Cons tuple xs)
  show ?case
  proof (cases tuple)
    case None
    then show ?thesis by simp
  next
    case (Some t)
    show ?thesis
    proof (cases "tuple_to t")
      case None
      with Some show ?thesis by simp
    next
      case to: (Some to)
      show ?thesis
      proof (cases "tuple_from t")
        case None
        with Some to show ?thesis by simp
      next
        case frm: (Some frm)
        obtain s st' where pl:
          "page_loop n svc pageSize frm to (maxSignals t) (st\<lparr>signalsCreatedCount := 0\<rparr>) = (s, st')"
          by (cases "page_loop n svc pageSize frm to (maxSignals t) (st\<lparr>signalsCreatedCount := 0\<rparr>)")
        show ?thesis using Some to frm pl Cons.IH [of st']
          by (cases s) simp_all
      qed
    qed
  qed
qed

text \<open>
  C8. When the tuple that \<^verbatim>\<open>pop\<close> hands out is null or lacks a bound, the function
  returns at once, for any fuel: \<open>success\<close> is false, \<^verbatim>\<open>malformed date tuple\<close> joins the
  error list through a set, and everything else is as the windows processed before left it.
  For the whole function: once the windows after the malformed one in the array (they are
  popped first) have been processed, the run returns their aggregates with the new error,
  and the windows before it in the array are never looked at.
\<close>

theorem malformed_tuple_fails_the_run:
  assumes bad: "tuple = None \<or> (\<exists>t. tuple = Some t \<and> (tuple_to t = None \<or> tuple_from t = None))"
  shows "window_loop n svc pageSize (tuple # rest) st
           = (Returned, st\<lparr>ret := (ret st)\<lparr>success := False,
                 errors := set_spread (errors (ret st) @ [''malformed date tuple''])\<rparr>\<rparr>) \<and>
         (window_loop n svc pageSize (rev later) (initial b) = (Finished, st') \<longrightarrow>
            searchAfterAndBulkCreate n svc pageSize (earlier @ tuple # later) b
              = (Returned, st'\<lparr>ret := (ret st')\<lparr>success := False,
                    errors := set_spread (errors (ret st') @ [''malformed date tuple''])\<rparr>\<rparr>))"
proof -
  have pop: "window_loop n svc pageSize (tuple # more) s
           = (Returned, s\<lparr>ret := (ret s)\<lparr>success := False,
                 errors := set_spread (errors (ret s) @ [''malformed date tuple''])\<rparr>\<rparr>)"
    for more and s :: "'a state"
    using bad by (auto simp: malformed_def split: option.splits)
  show ?thesis
    by (simp add: searchAfterAndBulkCreate_def window_loop_append pop
             del: window_loop.simps)
qed

text \<open>
  The instance: three planned windows, the middle one without its lower bound; the signals
  of the window popped first are kept.
\<close>

theorem malformed_tuple_fails_the_run_witness:
  "searchAfterAndBulkCreate 1 paging_backend 2
     [window ''now-18m'' ''now-12m'' 2,
      Some \<lparr>tuple_from = None, tuple_to = Some ''now-6m'', maxSignals = 2\<rparr>,
      window ''now-6m'' ''now'' 2] 0
   = (Returned,
      \<lparr>ret = \<lparr>success = False, searchAfterTimes = [''5''], bulkCreateTimes = [''7''],
              lastLookBackDate = Some ''2020-09-01T11:00:00Z'', createdSignalsCount = 2,
              errors = [''malformed date tuple'']\<rparr>,
       sortId = Some ''200'', signalsCreatedCount = 2, backend = 1,
       calls = [SearchAfter \<lparr>searchAfterSortId = None, search_from = ''now-6m'',
                              search_to = ''now'', search_pageSize = 2\<rparr>,
                FilterEvents \<lparr>hits_total = TotalObject 2, hits = [hit_a, hit_b]\<rparr>,
                BulkCreate [hit_a, hit_b]]\<rparr>)"
proof -
  let ?bad = "Some \<lparr>tuple_from = None, tuple_to = Some ''now-6m'', maxSignals = 2\<rparr>"
  let ?st' = "\<lparr>ret = \<lparr>success = True, searchAfterTimes = [''5''], bulkCreateTimes = [''7''],
              lastLookBackDate = Some ''2020-09-01T11:00:00Z'', createdSignalsCount = 2,
              errors = []\<rparr>,
       sortId = Some ''200'', signalsCreatedCount = 2, backend = (1::nat),
       calls = [SearchAfter \<lparr>searchAfterSortId = None, search_from = ''now-6m'',
                              search_to = ''now'', search_pageSize = 2\<rparr>,
                FilterEvents \<lparr>hits_total = TotalObject 2, hits = [hit_a, hit_b]\<rparr>,
                BulkCreate [hit_a, hit_b]]\<rparr>"
  have bad: "?bad = None \<or> (\<exists>t. ?bad = Some t \<and> (tuple_to t = None \<or> tuple_from t = None))"
    by simp
  have later: "window_loop 1 paging_backend 2 (rev [window ''now-6m'' ''now'' 2]) (initial 0)
                 = (Finished, ?st')"
    by (simp add: run_defs paging_backend_def hit_a_def hit_b_def)
  from malformed_tuple_fails_the_run [OF bad, of 1 paging_backend 2 "[]" "initial 0"
      "[window ''now-6m'' ''now'' 2]" 0 ?st' "[window ''now-18m'' ''now-12m'' 2]"] later
  show ?thesis
    by (simp add: set_spread_def del: window_loop.simps)
qed

subsection \<open>The cursor within a window\<close>

text \<open>
  C7. The cursor is read from \<^verbatim>\<open>searchResult\<close> at line 243, and the comment above that
  line takes the page to be as the search returned it. When the filter hands the page back,
  the slice of line 196 has cut the page itself by then, and the cursor is the sort value
  of the last hit of the cut batch. A window of one signal and a page of the hits \<open>a\<close> (sort
  \<^verbatim>\<open>['100', 'x']\<close>) and \<open>b\<close> (sort \<^verbatim>\<open>['200']\<close>): the batch is cut to \<open>a\<close> and the cursor
  becomes \<^verbatim>\<open>100\<close>, not \<^verbatim>\<open>200\<close>. The same in a window of three signals with a page size
  of two: the first page moves the cursor to \<^verbatim>\<open>200\<close>, the second, cut to one hit, moves
  it back to \<^verbatim>\<open>100\<close>.
\<close>

theorem cursor_read_from_the_cut_batch:
  "searchAfterAndBulkCreate 1 handing_back_backend 2 [window ''now-6m'' ''now'' 1] 0
     = (Finished,
        \<lparr>ret = \<lparr>success = True, searchAfterTimes = [''5''], bulkCreateTimes = [''7''],
                lastLookBackDate = Some ''2020-09-01T11:00:00Z'', createdSignalsCount = 1,
                errors = []\<rparr>,
         sortId = Some ''100'', signalsCreatedCount = 1, backend = 1,
         calls = [SearchAfter \<lparr>searchAfterSortId = None, search_from = ''now-6m'',
                                search_to = ''now'', search_pageSize = 1\<rparr>,
                  FilterEvents \<lparr>hits_total = TotalObject 2, hits = [hit_a, hit_b]\<rparr>,
                  BulkCreate [hit_a]]\<rparr>) \<and>
   hit_sort (last [hit_a, hit_b]) = Some [''200''] \<and>
   sortId (snd (searchAfterAndBulkCreate 1 handing_back_backend 2
                  [window ''now-6m'' ''now'' 3] 0)) = Some ''200'' \<and>
   sortId (snd (searchAfterAndBulkCreate 2 handing_back_backend 2
                  [window ''now-6m'' ''now'' 3] 0)) = Some ''100''"
  by (simp add: run_defs handing_back_backend_def hit_a_def hit_b_def numeral_2_eq_2)






subsection \<open>The error list\<close>

lemma catch_distinct: "distinct (errors (ret (snd (catch exc st))))"
  by (simp add: catch_def set_spread_distinct)

lemma advance_cursor_distinct:
  "distinct (errors (ret st)) \<Longrightarrow> distinct (errors (ret (snd (advance_cursor sr st))))"
  by (auto simp: advance_cursor_def catch_def set_spread_distinct split: option.splits list.splits)

lemma bulk_create_distinct:
  "distinct (errors (ret st)) \<Longrightarrow> distinct (errors (ret (snd (bulk_create svc maxS fe st))))"
  by (auto simp: bulk_create_def catch_def set_spread_distinct Let_def split: prod.splits sum.splits)

lemma process_page_distinct:
  "distinct (errors (ret st)) \<Longrightarrow> distinct (errors (ret (snd (process_page svc maxS sr st))))"
proof -
  assume d: "distinct (errors (ret st))"
  obtain fr b where f: "filterEventsAgainstList svc sr (backend st) = (fr, b)"
    by (cases "filterEventsAgainstList svc sr (backend st)")
  show ?thesis
  proof (cases fr)
    case (Inl exc)
    with f show ?thesis by (simp add: process_page_def catch_distinct)
  next
    case (Inr answer)
    let ?fe = "filtered_hits answer sr"
    let ?page = "page_after_write maxS (signalsCreatedCount st) answer sr"
    let ?st2 = "st\<lparr>ret := (ret st)\<lparr>lastLookBackDate :=
                   (if length (hits sr) > 0
                    then Some (timestamp (last (hits sr))) else None)\<rparr>,
                backend := b, calls := calls st @ [FilterEvents sr]\<rparr>"
    have d2: "distinct (errors (ret ?st2))" using d by simp
    obtain fl st3 where bc: "bulk_create svc maxS ?fe ?st2 = (fl, st3)"
      by (cases "bulk_create svc maxS ?fe ?st2")
    from bulk_create_distinct [OF d2, of svc maxS ?fe] bc
    have d3: "distinct (errors (ret st3))" by simp
    show ?thesis using f Inr bc d3 advance_cursor_distinct [OF d3, of ?page]
      by (cases fl) (simp_all add: process_page_def)
  qed
qed

lemma page_body_distinct:
  "distinct (errors (ret st)) \<Longrightarrow>
   distinct (errors (ret (snd (page_body svc pageSize frm to maxS st))))"
  by (auto simp: page_body_def Let_def catch_distinct process_page_distinct
           split: prod.splits sum.splits)

lemma page_loop_distinct:
  "distinct (errors (ret st)) \<Longrightarrow>
   distinct (errors (ret (snd (page_loop n svc pageSize frm to maxS st))))"
proof (induction n arbitrary: st)
  case 0
  then show ?case by simp
next
  case (Suc n)
  obtain fl st' where pb: "page_body svc pageSize frm to maxS st = (fl, st')"
    by (cases "page_body svc pageSize frm to maxS st")
  from page_body_distinct [OF Suc.prems, of svc pageSize frm to maxS] pb
  have d: "distinct (errors (ret st'))" by simp
  show ?case using Suc.prems pb d Suc.IH [OF d]
    by (cases fl) simp_all
qed

lemma malformed_distinct: "distinct (errors (ret (malformed st)))"
  by (simp add: malformed_def set_spread_distinct)

lemma window_loop_distinct:
  "distinct (errors (ret st)) \<Longrightarrow>
   distinct (errors (ret (snd (window_loop n svc pageSize tuples st))))"
proof (induction tuples arbitrary: st)
  case Nil
  then show ?case by simp
next
  case (Cons tuple rest)
  show ?case
  proof (cases tuple)
    case None
    then show ?thesis by (simp add: malformed_distinct)
  next
    case (Some t)
    show ?thesis
    proof (cases "tuple_to t")
      case None
      with Some show ?thesis by (simp add: malformed_distinct)
    next
      case to: (Some to)
      show ?thesis
      proof (cases "tuple_from t")
        case None
        with Some to show ?thesis by (simp add: malformed_distinct)
      next
        case frm: (Some frm)
        let ?st0 = "st\<lparr>signalsCreatedCount := 0\<rparr>"
        have d0: "distinct (errors (ret ?st0))" using Cons.prems by simp
        obtain s st' where pl: "page_loop n svc pageSize frm to (maxSignals t) ?st0 = (s, st')"
          by (cases "page_loop n svc pageSize frm to (maxSignals t) ?st0")
        from page_loop_distinct [OF d0, of n svc pageSize frm to "maxSignals t"] pl
        have d: "distinct (errors (ret st'))" by simp
        show ?thesis using Some to frm pl d Cons.IH [OF d]
          by (cases s) simp_all
      qed
    qed
  qed
qed

text \<open>
  C9. Whatever the services do and however long the run goes on, the \<open>errors\<close> of the
  result hold every string at most once: the list starts empty and each of its three
  assignments (malformed tuple, \<^verbatim>\<open>catch\<close> block, writer's errors) goes through a set.
\<close>

theorem errors_deduplicated:
  "distinct (errors (ret (snd (searchAfterAndBulkCreate n svc pageSize totalToFromTuples b))))"
  by (simp add: searchAfterAndBulkCreate_def window_loop_distinct initial_def)


end
